theory Spec2Isabelle
  imports Complex_Main "HOL-Library.Word" "HOL-Library.Log_Nat"
begin

section \<open>Data model of the exception reporting core\<close>

text \<open>
  The development embeds \<^verbatim>\<open>include/core/exception_handler.hpp\<close>
  (class \<^verbatim>\<open>gs::core::ExceptionHandler\<close>) and the overlay of
  \<^verbatim>\<open>src/exception_handler.cpp\<close> with its header
  \<^verbatim>\<open>src/visualizer/exception_visualizer.hpp\<close>
  (class \<^verbatim>\<open>gs::visualizer::ExceptionVisualizer\<close>).

  Conventions of the embedding:
  \<^item> a \<^verbatim>\<open>float\<close> is a rational number, and every float operation of the
    source rounds its exact result to the nearest binary32 value (section
    ``Binary32 arithmetic''); infinities and NaN are not part of the model;
  \<^item> a \<^verbatim>\<open>size_t\<close> counter is a 64-bit word, so \<open>+ 1\<close> wraps as
    \<^verbatim>\<open>operator++\<close> does; a queue length and its bound are natural numbers;
  \<^item> a member function takes the object's state and returns the new one;
  \<^item> mutexes and atomics are not modelled: every member function is one step.
\<close>

text \<open>
  Modelled from the spec: \<^verbatim>\<open>logger.hpp\<close> with the enumeration
  \<^verbatim>\<open>LogLevel\<close> is not among the sources; the spec gives the severities as
  the ordered enumeration Trace, Debug, Info, Warn, Error, Critical.
\<close>

datatype LogLevel = Trace | Debug | Info | Warn | Error | Critical

type_synonym Severity = LogLevel

text \<open>The parts of \<^verbatim>\<open>std::source_location\<close> that the code reads.\<close>

record source_location =
  file_name :: string
  line :: nat
  function_name :: string

record ExceptionEvent =
  message :: string
  severity :: Severity
  location :: source_location
  timestamp :: nat
  type_name :: string

section \<open>ExceptionHandler\<close>

text \<open>
  An observer is a \<^verbatim>\<open>std::function<void(const ExceptionEvent&)>\<close>: it
  receives the event and changes whatever it captured. The captured world is the type
  parameter \<open>'w\<close>. The handler's own members are \<open>observers\<close> and
  \<open>throw_on_critical\<close>; \<open>steady_now\<close> is the reading of the monotonic clock.
\<close>

record 'w process =
  observers :: "(ExceptionEvent \<Rightarrow> 'w \<Rightarrow> 'w) list"
  throw_on_critical :: bool
  steady_now :: nat
  env :: 'w

definition add_observer :: "(ExceptionEvent \<Rightarrow> 'w \<Rightarrow> 'w) \<Rightarrow> 'w process \<Rightarrow> 'w process" where
  "add_observer obs p = p\<lparr>observers := observers p @ [obs]\<rparr>"

definition remove_observers :: "'w process \<Rightarrow> 'w process" where
  "remove_observers p = p\<lparr>observers := []\<rparr>"

definition set_throw_on_critical :: "bool \<Rightarrow> 'w process \<Rightarrow> 'w process" where
  "set_throw_on_critical enabled_flag p = p\<lparr>throw_on_critical := enabled_flag\<rparr>"

text \<open>
  Modelled from the spec: the body of \<^verbatim>\<open>ExceptionHandler::handle_exception\<close>
  is declared in the header and defined in no source file. The spec: ``exactly one
  FaultEvent is constructed and handed to every registered observer, synchronously, on the
  calling thread, in registration order''; observers ``must not raise''; and the flag
  \<^verbatim>\<open>throw_on_critical\<close> is ``reserved'': ``by default, classification never
  re-raises''. So \<open>publish\<close> runs the observers front to back over the world, and
  \<open>handle_exception\<close> builds the one event and publishes it; the flag is stored and
  not read. The re-raise that the spec allows for a Critical fault once the flag is
  enabled (``a policy hook the host may implement'') is left out: the model gives the
  state after the publishing, and no property below is about what a call of
  \<open>handle_exception\<close> lets escape.
\<close>

definition publish :: "ExceptionEvent \<Rightarrow> 'w process \<Rightarrow> 'w process" where
  "publish event p = p\<lparr>env := foldl (\<lambda>w obs. obs event w) (env p) (observers p)\<rparr>"

definition handle_exception ::
  "string \<Rightarrow> Severity \<Rightarrow> string \<Rightarrow> source_location \<Rightarrow> 'w process \<Rightarrow> 'w process" where
  "handle_exception msg sev type loc p =
     publish \<lparr>message = msg, severity = sev, location = loc,
              timestamp = steady_now p, type_name = type\<rparr> p"

definition report :: "string \<Rightarrow> Severity \<Rightarrow> source_location \<Rightarrow> 'w process \<Rightarrow> 'w process" where
  "report msg sev loc p = handle_exception msg sev ''manual_report'' loc p"

subsection \<open>Thrown objects and the handlers of wrap\<close>

text \<open>
  The four classes the handlers of \<^verbatim>\<open>wrap\<close> name form one inheritance chain
  of the standard library: \<^verbatim>\<open>filesystem_error\<close> derives from
  \<^verbatim>\<open>system_error\<close>, that from \<^verbatim>\<open>runtime_error\<close>, that from
  \<^verbatim>\<open>exception\<close>. A thrown object of a standard class is given by the most
  derived of the four that its class inherits from, and by its \<^verbatim>\<open>what()\<close>;
  anything else (an \<^verbatim>\<open>int\<close>, a foreign class) is \<open>Thrown_other\<close>.
\<close>

datatype exception_class = Filesystem_error | System_error | Runtime_error | Std_exception

fun depth :: "exception_class \<Rightarrow> nat" where
  "depth Std_exception = 0"
| "depth Runtime_error = 1"
| "depth System_error = 2"
| "depth Filesystem_error = 3"

definition derives_from :: "exception_class \<Rightarrow> exception_class \<Rightarrow> bool" where
  "derives_from c base = (depth base \<le> depth c)"

datatype thrown = Thrown_std exception_class string | Thrown_other

text \<open>
  \<^verbatim>\<open>catch (const C& e)\<close>: the handler is entered when the dynamic class of
  the thrown object is \<open>C\<close> or derives from it, and then \<^verbatim>\<open>e.what()\<close>
  is its description.
\<close>

fun catches :: "exception_class \<Rightarrow> thrown \<Rightarrow> string option" where
  "catches C (Thrown_std c what) = (if derives_from c C then Some what else None)"
| "catches C Thrown_other = None"

text \<open>
  \<^verbatim>\<open>wrap(f, loc)\<close> returns the adapter; \<open>wrap f loc args\<close> is the adapter
  called on \<open>args\<close>. The adapter is declared \<^verbatim>\<open>-> decltype(auto)\<close>, and each
  handler ends with \<^verbatim>\<open>if constexpr (!std::is_void_v<...>) return {};\<close>. For a
  callable that returns \<^verbatim>\<open>void\<close> these statements are discarded and the handlers
  return nothing. For a callable that returns a value they are kept, and no return type
  can be deduced from a braced list: that instantiation is ill-formed and does not
  compile. So the adapter exists for \<^verbatim>\<open>void\<close> callables only, and these are what
  \<open>wrap\<close> models: the callable \<open>f\<close> may change the process state and ends normally
  (\<open>Inr ()\<close>) or with a thrown object (\<open>Inl\<close>). The handlers are tried in the order
  of the source.
\<close>

definition wrap ::
  "('a \<Rightarrow> 'w process \<Rightarrow> (thrown + unit) \<times> 'w process) \<Rightarrow> source_location \<Rightarrow>
   'a \<Rightarrow> 'w process \<Rightarrow> (thrown + unit) \<times> 'w process" where
  "wrap f loc args p =
     (case f args p of
        (Inr v, p') \<Rightarrow> (Inr v, p')
      | (Inl e, p') \<Rightarrow>
          (case catches Filesystem_error e of
             Some what \<Rightarrow> (Inr (), handle_exception what Error ''filesystem_error'' loc p')
           | None \<Rightarrow>
          (case catches System_error e of
             Some what \<Rightarrow> (Inr (), handle_exception what Error ''system_error'' loc p')
           | None \<Rightarrow>
          (case catches Runtime_error e of
             Some what \<Rightarrow> (Inr (), handle_exception what Error ''runtime_error'' loc p')
           | None \<Rightarrow>
          (case catches Std_exception e of
             Some what \<Rightarrow> (Inr (), handle_exception what Error ''exception'' loc p')
           | None \<Rightarrow>
             (Inr (), handle_exception ''Unknown exception'' Critical ''unknown'' loc p'))))))"

text \<open>
  \<^verbatim>\<open>std::expected<T, E>\<close> and \<^verbatim>\<open>handle_expected\<close>. Whether
  \<^verbatim>\<open>E\<close> converts to \<^verbatim>\<open>std::string\<close> is decided at compile time:
  \<open>to_text\<close> is \<open>Some\<close> conversion when it does and \<open>None\<close> otherwise. The result is
  taken by const reference, so the function returns the process state only.
\<close>

datatype ('t, 'e) expected = Value 't | Unexpected 'e

definition handle_expected ::
  "('e \<Rightarrow> string) option \<Rightarrow> ('t, 'e) expected \<Rightarrow> source_location \<Rightarrow> 'w process \<Rightarrow> 'w process" where
  "handle_expected to_text result loc p =
     (case result of
        Value v \<Rightarrow> p
      | Unexpected err \<Rightarrow>
          (case to_text of
             Some conv \<Rightarrow> report (conv err) Warn loc p
           | None \<Rightarrow> report ''Operation failed'' Warn loc p))"

text \<open>
  The classification policy in the words of the spec, to compare \<open>wrap\<close> with: the five
  rules in their precedence order, the first that matches wins. A failure is of a domain
  when its class is the domain's class or derives from it; it exposes a description when
  it is a standard exception at all.
\<close>

definition in_domain :: "exception_class \<Rightarrow> thrown \<Rightarrow> bool" where
  "in_domain C e = (case e of Thrown_std c what \<Rightarrow> derives_from c C | Thrown_other \<Rightarrow> False)"

definition spec_classification :: "thrown \<Rightarrow> Severity \<times> string" where
  "spec_classification e =
     (if in_domain Filesystem_error e then (Error, ''filesystem_error'')
      else if in_domain System_error e then (Error, ''system_error'')
      else if in_domain Runtime_error e then (Error, ''runtime_error'')
      else if in_domain Std_exception e then (Error, ''exception'')
      else (Critical, ''unknown''))"

section \<open>Binary32 arithmetic\<close>

text \<open>
  The \<^verbatim>\<open>float\<close> of the source is IEEE 754 binary32: 24 significant bits, the
  least exponent \<open>-126\<close> (below it the values are multiples of \<open>2 powi - 149\<close>), every
  operation rounded to the nearest value, a tie to the one with an even significand.
  \<open>ilog2 x\<close> is the exponent of a positive \<open>x\<close>: \<open>2 powi ilog2 x \<le> x < 2 powi (ilog2 x + 1)\<close>.
  A result beyond the largest finite value would be an infinity in the machine; here it
  stays a rounded rational of the same sign.
\<close>

definition ilog2 :: "rat \<Rightarrow> int" where
  "ilog2 x = (let (a, b) = quotient_of x; d = bitlen a - bitlen b
              in if (2::rat) powi d \<le> x then d else d - 1)"

definition round_half_even :: "rat \<Rightarrow> int" where
  "round_half_even q =
     (let f = \<lfloor>q\<rfloor>; r = q - of_int f
      in if r < 1 / 2 then f else if 1 / 2 < r then f + 1 else if even f then f else f + 1)"

text \<open>\<open>f32 x\<close> is \<open>x\<close> rounded to binary32; a literal such as \<^verbatim>\<open>0.3f\<close> is \<open>f32 (3 / 10)\<close>.\<close>

definition f32 :: "rat \<Rightarrow> rat" where
  "f32 x = (if x = 0 then 0
            else let e = max (ilog2 \<bar>x\<bar>) (- 126) - 23
                 in of_int (round_half_even (x * 2 powi (- e))) * 2 powi e)"

definition fsub :: "rat \<Rightarrow> rat \<Rightarrow> rat" where
  "fsub x y = f32 (x - y)"

definition fdiv :: "rat \<Rightarrow> rat \<Rightarrow> rat" where
  "fdiv x y = f32 (x / y)"

section \<open>ExceptionVisualizer\<close>

text \<open>
  \<^verbatim>\<open>IM_COL32(r, g, b, a)\<close> is a macro of the GUI toolkit; a colour is kept as
  its four arguments.
\<close>

datatype ImU32 = IM_COL32 nat nat nat nat

record Toast =
  toast_message :: string
  toast_location :: string
  toast_type :: string
  lifetime :: rat
  initial_lifetime :: rat
  color :: ImU32
  toast_severity :: Severity

text \<open>
  The members of the class. \<open>popup_open\<close> is not a member: it is the toolkit's flag of
  the popup \<^verbatim>\<open>"##CriticalError"\<close>, which the source drives with three calls:
  \<^verbatim>\<open>ImGui::OpenPopup\<close> raises it, \<^verbatim>\<open>ImGui::BeginPopupModal\<close>
  returns it, \<^verbatim>\<open>ImGui::CloseCurrentPopup\<close> lowers it.
\<close>

record ExceptionVisualizer =
  toasts :: "Toast list"
  modal_error :: "ExceptionEvent option"
  enabled :: bool
  max_toasts :: nat
  toast_lifetime :: rat
  position_corner :: int
  error_count :: "64 word"
  warning_count :: "64 word"
  info_count :: "64 word"
  show_statistics :: bool
  popup_open :: bool

text \<open>The default member initialisers of the header.\<close>

definition new_visualizer :: ExceptionVisualizer where
  "new_visualizer =
     \<lparr>toasts = [], modal_error = None, enabled = True, max_toasts = 5,
      toast_lifetime = 4, position_corner = 0, error_count = 0, warning_count = 0,
      info_count = 0, show_statistics = False, popup_open = False\<rparr>"

definition set_enabled :: "bool \<Rightarrow> ExceptionVisualizer \<Rightarrow> ExceptionVisualizer" where
  "set_enabled b v = v\<lparr>enabled := b\<rparr>"

definition set_max_toasts :: "nat \<Rightarrow> ExceptionVisualizer \<Rightarrow> ExceptionVisualizer" where
  "set_max_toasts n v = v\<lparr>max_toasts := n\<rparr>"

definition set_toast_lifetime :: "rat \<Rightarrow> ExceptionVisualizer \<Rightarrow> ExceptionVisualizer" where
  "set_toast_lifetime seconds v = v\<lparr>toast_lifetime := seconds\<rparr>"

definition set_position_corner :: "int \<Rightarrow> ExceptionVisualizer \<Rightarrow> ExceptionVisualizer" where
  "set_position_corner corner v = v\<lparr>position_corner := corner\<rparr>"

definition clear :: "ExceptionVisualizer \<Rightarrow> ExceptionVisualizer" where
  "clear v = v\<lparr>toasts := [], modal_error := None\<rparr>"

definition get_error_count :: "ExceptionVisualizer \<Rightarrow> 64 word" where
  "get_error_count v = error_count v"

definition get_warning_count :: "ExceptionVisualizer \<Rightarrow> 64 word" where
  "get_warning_count v = warning_count v"

fun severity_to_color :: "Severity \<Rightarrow> ImU32" where
  "severity_to_color Critical = IM_COL32 255 50 50 255"
| "severity_to_color Error = IM_COL32 220 80 80 255"
| "severity_to_color Warn = IM_COL32 220 180 50 255"
| "severity_to_color Info = IM_COL32 100 180 220 255"
| "severity_to_color Debug = IM_COL32 150 150 220 255"
| "severity_to_color Trace = IM_COL32 180 180 180 255"

subsection \<open>on\_exception\<close>

text \<open>
  The location string of a toast is \<^verbatim>\<open>std::format("{}:{}", path.filename().string(), line)\<close>.
  \<open>path_filename\<close> is the last component of a path with \<open>/\<close> separators (empty
  after a trailing separator), \<open>decimal\<close> the digits of a number.
\<close>

definition path_filename :: "string \<Rightarrow> string" where
  "path_filename p = rev (takeWhile (\<lambda>c. c \<noteq> CHR ''/'') (rev p))"

definition digit :: "nat \<Rightarrow> char" where
  "digit d = ''0123456789'' ! d"

function decimal :: "nat \<Rightarrow> string" where
  "decimal n = (if n < 10 then [digit n] else decimal (n div 10) @ [digit (n mod 10)])"
  by pat_completeness auto
termination
  by (relation "measure (\<lambda>n. n)") auto

declare decimal.simps [simp del]

definition make_toast :: "ExceptionVisualizer \<Rightarrow> ExceptionEvent \<Rightarrow> Toast" where
  "make_toast v event =
     \<lparr>toast_message = message event,
      toast_location = path_filename (file_name (location event)) @ '':'' @ decimal (line (location event)),
      toast_type = type_name event,
      lifetime = toast_lifetime v,
      initial_lifetime = toast_lifetime v,
      color = severity_to_color (severity event),
      toast_severity = severity event\<rparr>"

text \<open>The \<^verbatim>\<open>switch\<close> that opens \<^verbatim>\<open>on_exception\<close>.\<close>

fun update_statistics :: "Severity \<Rightarrow> ExceptionVisualizer \<Rightarrow> ExceptionVisualizer" where
  "update_statistics Error v = v\<lparr>error_count := error_count v + 1\<rparr>"
| "update_statistics Critical v = v\<lparr>error_count := error_count v + 1\<rparr>"
| "update_statistics Warn v = v\<lparr>warning_count := warning_count v + 1\<rparr>"
| "update_statistics Info v = v\<lparr>info_count := info_count v + 1\<rparr>"
| "update_statistics Debug v = v\<lparr>info_count := info_count v + 1\<rparr>"
| "update_statistics Trace v = v\<lparr>info_count := info_count v + 1\<rparr>"

text \<open>
  \<^verbatim>\<open>while (toasts_.size() > max_toasts_) toasts_.pop_front();\<close>
  The queue is not empty when its size exceeds a bound, so \<open>tl\<close> is
  \<^verbatim>\<open>pop_front\<close>.
\<close>

function limit_toasts :: "nat \<Rightarrow> Toast list \<Rightarrow> Toast list" where
  "limit_toasts bound ts = (if length ts > bound then limit_toasts bound (tl ts) else ts)"
  by pat_completeness auto
termination
  by (relation "measure (\<lambda>(bound, ts). length ts)") auto

declare limit_toasts.simps [simp del]

definition on_exception :: "ExceptionEvent \<Rightarrow> ExceptionVisualizer \<Rightarrow> ExceptionVisualizer" where
  "on_exception event v0 =
     (let v = update_statistics (severity event) v0 in
      if severity event = Critical
      then v\<lparr>modal_error := Some event, popup_open := True\<rparr>
      else v\<lparr>toasts := limit_toasts (max_toasts v) (toasts v @ [make_toast v event])\<rparr>)"

text \<open>
  The constructor registers this observer with the handler; the world the observer
  changes is the visualizer.
\<close>

definition visualizer_observer :: "ExceptionEvent \<Rightarrow> ExceptionVisualizer \<Rightarrow> ExceptionVisualizer" where
  "visualizer_observer event v = (if enabled v then on_exception event v else v)"

definition construct_visualizer :: "ExceptionVisualizer process \<Rightarrow> ExceptionVisualizer process" where
  "construct_visualizer p = (add_observer visualizer_observer p)\<lparr>env := new_visualizer\<rparr>"

subsection \<open>render\<close>

text \<open>
  What the user and the toolkit feed one frame, and what the frame draws. Screen
  positions and window heights are not part of the model; a drawn toast is the toast
  with the fade alpha computed for it.
\<close>

record frame_input =
  copy_details_clicked :: bool
  view_logs_clicked :: bool
  continue_clicked :: bool
  statistics_begin :: bool
  statistics_closed :: bool
  clear_all_clicked :: bool

record frame_output =
  drawn_toasts :: "(Toast \<times> rat) list"
  modal_drawn :: bool
  modal_details :: "ExceptionEvent option"
  clipboard_text :: "string option"
  statistics_drawn :: "(64 word \<times> 64 word \<times> 64 word \<times> nat) option"

text \<open>The fade alpha of a toast whose lifetime has been decremented for this frame.\<close>

definition fade_alpha :: "Toast \<Rightarrow> rat" where
  "fade_alpha t =
     (if lifetime t < f32 (1 / 2) then fdiv (lifetime t) (f32 (1 / 2))
      else if lifetime t > fsub (initial_lifetime t) (f32 (3 / 10))
      then fdiv (fsub (initial_lifetime t) (lifetime t)) (f32 (3 / 10))
      else 1)"

text \<open>
  The loop of \<^verbatim>\<open>render_toasts\<close> over the queue: every toast loses \<open>dt\<close>; one
  whose lifetime is then \<open>\<le> 0\<close> is erased, the others are drawn and stay.
\<close>

fun toast_loop :: "rat \<Rightarrow> Toast list \<Rightarrow> (Toast \<times> rat) list" where
  "toast_loop dt [] = []"
| "toast_loop dt (t # ts) =
     (let t' = t\<lparr>lifetime := fsub (lifetime t) dt\<rparr> in
      if lifetime t' \<le> 0 then toast_loop dt ts
      else (t', fade_alpha t') # toast_loop dt ts)"

definition render_toasts ::
  "rat \<Rightarrow> ExceptionVisualizer \<Rightarrow> ExceptionVisualizer \<times> (Toast \<times> rat) list" where
  "render_toasts dt v =
     (if toasts v = [] then (v, [])
      else (let drawn = toast_loop dt (toasts v) in (v\<lparr>toasts := map fst drawn\<rparr>, drawn)))"

definition copy_details :: "ExceptionEvent \<Rightarrow> string" where
  "copy_details e =
     ''Critical Error: '' @ message e @ [CHR 0x0A] @
     ''Type: '' @ type_name e @ [CHR 0x0A] @
     ''Location: '' @ file_name (location e) @ '':'' @ decimal (line (location e)) @ [CHR 0x0A] @
     ''Function: '' @ function_name (location e)"

definition dismiss :: "ExceptionVisualizer \<Rightarrow> ExceptionVisualizer" where
  "dismiss v = v\<lparr>popup_open := False, modal_error := None\<rparr>"

definition render_modal ::
  "frame_input \<Rightarrow> ExceptionVisualizer \<Rightarrow>
   ExceptionVisualizer \<times> bool \<times> ExceptionEvent option \<times> string option" where
  "render_modal inp v =
     (if popup_open v then
        (let details = modal_error v;
             clip = (if copy_details_clicked inp then map_option copy_details (modal_error v)
                     else None);
             v1 = (if view_logs_clicked inp then dismiss v else v);
             v2 = (if continue_clicked inp then dismiss v1 else v1)
         in (v2, True, details, clip))
      else (v, False, None, None))"

definition render_statistics_window ::
  "frame_input \<Rightarrow> ExceptionVisualizer \<Rightarrow>
   ExceptionVisualizer \<times> (64 word \<times> 64 word \<times> 64 word \<times> nat) option" where
  "render_statistics_window inp v0 =
     (let v = (if statistics_closed inp then v0\<lparr>show_statistics := False\<rparr> else v0) in
      if statistics_begin inp then
        (if clear_all_clicked inp then clear v else v,
         Some (error_count v, warning_count v, info_count v, length (toasts v)))
      else (v, None))"

definition render :: "rat \<Rightarrow> frame_input \<Rightarrow> ExceptionVisualizer \<Rightarrow> ExceptionVisualizer \<times> frame_output" where
  "render dt inp v =
     (let (v1, drawn) = render_toasts dt v;
          (v2, shown, details, clip) = render_modal inp v1;
          (v3, stats) = (if show_statistics v2 then render_statistics_window inp v2
                         else (v2, None))
      in (v3, \<lparr>drawn_toasts = drawn, modal_drawn = shown, modal_details = details,
               clipboard_text = clip, statistics_drawn = stats\<rparr>))"

text \<open>A run of frames, each with its \<open>dt\<close> and its input; the drawings are dropped.\<close>

fun render_frames :: "(rat \<times> frame_input) list \<Rightarrow> ExceptionVisualizer \<Rightarrow> ExceptionVisualizer" where
  "render_frames [] v = v"
| "render_frames ((dt, inp) # frames) v = render_frames frames (fst (render dt inp v))"

text \<open>
  The remaining lifetime of a toast that starts with \<open>L\<close>, after frames with the given
  \<open>dt\<close>: the float subtractions of the loop, one after the other. The toast is
  \<open>alive\<close> through the frames when the remaining lifetime is positive after each.
\<close>

definition countdown :: "rat \<Rightarrow> rat list \<Rightarrow> rat" where
  "countdown L dts = foldl fsub L dts"

fun alive :: "rat \<Rightarrow> rat list \<Rightarrow> bool" where
  "alive L [] = True"
| "alive L (dt # dts) = (0 < fsub L dt \<and> alive (fsub L dt) dts)"

text \<open>A run of events handed to \<^verbatim>\<open>on_exception\<close>, oldest first.\<close>

fun deliver :: "ExceptionEvent list \<Rightarrow> ExceptionVisualizer \<Rightarrow> ExceptionVisualizer" where
  "deliver [] v = v"
| "deliver (e # es) v = deliver es (on_exception e v)"

text \<open>
  The fade in the words of the spec, to compare \<open>fade_alpha\<close> with: a linear fade-in
  during the first fraction \<open>fin\<close> of the initial lifetime, a linear fade-out during the
  last fraction \<open>fout\<close> of it, full opacity in between. It is computed exactly.
\<close>

definition spec_fade_alpha :: "rat \<Rightarrow> rat \<Rightarrow> Toast \<Rightarrow> rat" where
  "spec_fade_alpha fin fout t =
     (let elapsed = initial_lifetime t - lifetime t in
      if elapsed < fin * initial_lifetime t then elapsed / (fin * initial_lifetime t)
      else if lifetime t < fout * initial_lifetime t
      then lifetime t / (fout * initial_lifetime t)
      else 1)"

section \<open>Sample values\<close>

text \<open>
  An observer that records each of its invocations, with its own name, at the end of a
  call record; a frame in which the user touches nothing; and a few events.
\<close>

definition probe :: "'n \<Rightarrow> ExceptionEvent \<Rightarrow> ('n \<times> ExceptionEvent) list \<Rightarrow> ('n \<times> ExceptionEvent) list" where
  "probe n event calls = calls @ [(n, event)]"

definition idle_frame :: frame_input where
  "idle_frame =
     \<lparr>copy_details_clicked = False, view_logs_clicked = False, continue_clicked = False,
      statistics_begin = False, statistics_closed = False, clear_all_clicked = False\<rparr>"

definition here :: source_location where
  "here = \<lparr>file_name = ''/src/loader.cpp'', line = 42, function_name = ''load''\<rparr>"

definition sample_event :: "Severity \<Rightarrow> string \<Rightarrow> ExceptionEvent" where
  "sample_event sev msg =
     \<lparr>message = msg, severity = sev, location = here, timestamp = 0,
      type_name = ''manual_report''\<rparr>"

definition two_probes :: "(nat \<times> ExceptionEvent) list process" where
  "two_probes =
     add_observer (probe 2) (add_observer (probe 1)
       \<lparr>observers = [], throw_on_critical = False, steady_now = 7, env = []\<rparr>)"

section \<open>Properties of the binary32 arithmetic\<close>

text \<open>
  The rounding is what its name says: \<open>ilog2\<close> is the binary exponent, a rounded value
  is an integer significand of at most 24 bits times a power of two not below
  \<open>2 powi - 149\<close>, and it lies within half a unit in the last place of the exact value.
\<close>

lemma round_half_even_near: "\<bar>of_int (round_half_even q) - q\<bar> \<le> 1 / 2"
proof -
  have "of_int \<lfloor>q\<rfloor> \<le> q" and "q < of_int \<lfloor>q\<rfloor> + 1"
    by linarith+
  then show ?thesis
    by (auto simp: round_half_even_def Let_def abs_le_iff)
qed

lemma f32_error:
  "\<bar>f32 x - x\<bar> \<le> 2 powi (max (ilog2 \<bar>x\<bar>) (- 126) - 24)"
proof (cases "x = 0")
  case True
  then show ?thesis by (simp add: f32_def)
next
  case False
  define e where "e = max (ilog2 \<bar>x\<bar>) (- 126) - 23"
  define q where "q = x * 2 powi (- e)"
  have p: "(0::rat) < 2 powi e" by simp
  have x: "x = q * 2 powi e"
    by (simp add: q_def power_int_minus)
  have "f32 x - x = (of_int (round_half_even q) - q) * 2 powi e"
    using False by (simp add: f32_def Let_def e_def [symmetric] q_def [symmetric] x [symmetric] algebra_simps)
  then have "\<bar>f32 x - x\<bar> = \<bar>of_int (round_half_even q) - q\<bar> * 2 powi e"
    by (simp add: abs_mult)
  also have "\<dots> \<le> (1 / 2) * 2 powi e"
    using round_half_even_near [of q] p by (intro mult_right_mono) simp_all
  also have "\<dots> = 2 powi (e - 1)"
    by (simp add: power_int_diff)
  finally show ?thesis
    by (simp add: e_def)
qed

lemma ilog2_bounds:
  assumes "0 < x"
  shows "2 powi ilog2 x \<le> x \<and> x < 2 powi (ilog2 x + 1)"
proof -
  obtain a b where q: "quotient_of x = (a, b)"
    by (cases "quotient_of x")
  then have b: "0 < b" and x: "x = of_int a / of_int b"
    using quotient_of_denom_pos [of x a b] quotient_of_div [of x a b] by simp_all
  with assms have a: "0 < a"
    by (simp add: zero_less_divide_iff)
  define d where "d = bitlen a - bitlen b"
  from bitlen_bounds [OF a] have a1: "(2::int) ^ nat (bitlen a - 1) \<le> a" and a2: "a < 2 ^ nat (bitlen a)"
    by simp_all
  from bitlen_bounds [OF b] have b1: "(2::int) ^ nat (bitlen b - 1) \<le> b" and b2: "b < 2 ^ nat (bitlen b)"
    by simp_all
  have la: "1 \<le> bitlen a" and lb: "1 \<le> bitlen b"
    using a b by (simp_all add: bitlen_alt_def)
  have ra1: "(2::rat) powi (bitlen a - 1) \<le> of_int a"
  proof -
    have "(of_int ((2::int) ^ nat (bitlen a - 1)) :: rat) \<le> of_int a"
      using a1 by (simp only: of_int_le_iff)
    then show ?thesis using la by (simp add: power_int_def)
  qed
  have ra2: "of_int a < (2::rat) powi bitlen a"
  proof -
    have "(of_int a :: rat) < of_int ((2::int) ^ nat (bitlen a))"
      using a2 by (simp only: of_int_less_iff)
    then show ?thesis using la by (simp add: power_int_def)
  qed
  have rb1: "(2::rat) powi (bitlen b - 1) \<le> of_int b"
  proof -
    have "(of_int ((2::int) ^ nat (bitlen b - 1)) :: rat) \<le> of_int b"
      using b1 by (simp only: of_int_le_iff)
    then show ?thesis using lb by (simp add: power_int_def)
  qed
  have rb2: "of_int b < (2::rat) powi bitlen b"
  proof -
    have "(of_int b :: rat) < of_int ((2::int) ^ nat (bitlen b))"
      using b2 by (simp only: of_int_less_iff)
    then show ?thesis using lb by (simp add: power_int_def)
  qed
  have bpos: "(0::rat) < of_int b" using b by simp
  have lower: "(2::rat) powi (d - 1) \<le> x"
  proof -
    have "(2::rat) powi (d - 1) * of_int b \<le> 2 powi (d - 1) * 2 powi bitlen b"
      using rb2 by (intro mult_left_mono) simp_all
    also have "\<dots> = 2 powi (bitlen a - 1)"
      by (simp add: d_def power_int_add [symmetric])
    also have "\<dots> \<le> of_int a" by (rule ra1)
    finally show ?thesis
      using bpos by (simp add: x pos_le_divide_eq)
  qed
  have upper: "x < (2::rat) powi (d + 1)"
  proof -
    have "of_int a < (2::rat) powi bitlen a" by (rule ra2)
    also have "\<dots> = 2 powi (d + 1) * 2 powi (bitlen b - 1)"
      by (simp add: d_def power_int_add [symmetric])
    also have "\<dots> \<le> 2 powi (d + 1) * of_int b"
      using rb1 by (intro mult_left_mono) simp_all
    finally show ?thesis
      using bpos by (simp add: x pos_divide_less_eq)
  qed
  show ?thesis
  proof (cases "(2::rat) powi d \<le> x")
    case True
    then have "ilog2 x = d" by (simp add: ilog2_def q d_def)
    with True upper show ?thesis by simp
  next
    case False
    then have "ilog2 x = d - 1" by (simp add: ilog2_def q d_def)
    with False lower show ?thesis by simp
  qed
qed

lemma round_half_even_bound:
  assumes "\<bar>q\<bar> \<le> of_int N"
  shows "\<bar>round_half_even q\<bar> \<le> N"
proof -
  have lo: "- N \<le> \<lfloor>q\<rfloor>"
    using assms by (simp add: le_floor_iff abs_le_iff)
  have hi: "\<lfloor>q\<rfloor> \<le> N"
  proof -
    have "of_int \<lfloor>q\<rfloor> \<le> q"
      by simp
    also have "q \<le> of_int N"
      using assms by (simp add: abs_le_iff)
    finally show ?thesis
      by (simp only: of_int_le_iff)
  qed
  have hi': "\<lfloor>q\<rfloor> + 1 \<le> N" if "0 < q - of_int \<lfloor>q\<rfloor>"
  proof -
    from that have "of_int \<lfloor>q\<rfloor> < q" by simp
    also have "q \<le> of_int N" using assms by (simp add: abs_le_iff)
    finally have "\<lfloor>q\<rfloor> < N" by (simp only: of_int_less_iff)
    then show ?thesis by simp
  qed
  show ?thesis
    using lo hi hi' by (auto simp: round_half_even_def Let_def abs_le_iff)
qed

lemma f32_representable:
  "\<exists>n e. f32 x = of_int n * 2 powi e \<and> \<bar>n\<bar> \<le> 2 ^ 24 \<and> - 149 \<le> e"
proof (cases "x = 0")
  case True
  then have "f32 x = of_int 0 * 2 powi 0" by (simp add: f32_def)
  then show ?thesis by (intro exI [of _ 0] exI [of _ "0::int"]) simp
next
  case False
  define e where "e = max (ilog2 \<bar>x\<bar>) (- 126) - 23"
  define q where "q = x * 2 powi (- e)"
  have f: "f32 x = of_int (round_half_even q) * 2 powi e"
    using False by (simp add: f32_def Let_def e_def q_def)
  have e: "- 149 \<le> e" by (simp add: e_def)
  from False have "0 < \<bar>x\<bar>" by simp
  from ilog2_bounds [OF this] have "\<bar>x\<bar> < 2 powi (ilog2 \<bar>x\<bar> + 1)" by simp
  also have "\<dots> \<le> 2 powi (e + 24)"
    by (rule power_int_increasing) (simp_all add: e_def)
  finally have "\<bar>x\<bar> * 2 powi (- e) < 2 powi (e + 24) * 2 powi (- e)"
    by (intro mult_strict_right_mono) simp_all
  also have "\<dots> = 2 powi 24"
    by (simp add: power_int_add [symmetric])
  finally have "\<bar>q\<bar> \<le> of_int (2 ^ 24)"
    by (simp add: q_def abs_mult)
  then have "\<bar>round_half_even q\<bar> \<le> 2 ^ 24"
    by (rule round_half_even_bound)
  with f e show ?thesis by blast
qed

section \<open>Properties of the handler\<close>

lemma wrap_returns:
  "f args p = (Inr v, p') \<Longrightarrow> wrap f loc args p = (Inr v, p')"
  by (simp add: wrap_def)

lemma wrap_raises:
  assumes "f args p = (Inl e, p')"
  shows "wrap f loc args p =
           (Inr (),
            handle_exception (case e of Thrown_std c what \<Rightarrow> what | Thrown_other \<Rightarrow> ''Unknown exception'')
              (fst (spec_classification e)) (snd (spec_classification e)) loc p')"
proof (cases e)
  case (Thrown_std c what)
  then show ?thesis
    using assms
    by (cases c) (simp_all add: wrap_def spec_classification_def in_domain_def derives_from_def)
next
  case Thrown_other
  then show ?thesis
    using assms by (simp add: wrap_def spec_classification_def in_domain_def)
qed

lemma publish_two_probes:
  "env (publish event (add_observer (probe b) (add_observer (probe a) (q\<lparr>observers := []\<rparr>)))) =
     env q @ [(a, event), (b, event)]"
  by (simp add: publish_def add_observer_def probe_def)

text \<open>
  C1. When the callable raises, the adapter of \<open>wrap\<close> calls \<open>handle_exception\<close> with
  the severity and the category that the first matching rule of the classification
  policy gives (filesystem, system, runtime, other standard exception, anything else), and
  the one event handed to the observers carries that severity and category and the
  location of the \<open>wrap\<close> call.
\<close>

theorem wrap_classification:
  assumes "f args p = (Inl e, p')"
  shows "(\<exists>msg. snd (wrap f loc args p) =
            handle_exception msg (fst (spec_classification e)) (snd (spec_classification e)) loc p')
       \<and> (\<exists>event. snd (wrap f loc args p) = publish event p'
            \<and> (severity event, type_name event) = spec_classification e
            \<and> location event = loc)"
proof -
  let ?msg = "case e of Thrown_std c what \<Rightarrow> what | Thrown_other \<Rightarrow> ''Unknown exception''"
  let ?sev = "fst (spec_classification e)"
  let ?cat = "snd (spec_classification e)"
  have w: "snd (wrap f loc args p) = handle_exception ?msg ?sev ?cat loc p'"
    using wrap_raises [of f args p e p' loc] assms by simp
  let ?event = "\<lparr>message = ?msg, severity = ?sev, location = loc,
                  timestamp = steady_now p', type_name = ?cat\<rparr>"
  have "snd (wrap f loc args p) = publish ?event p'"
    by (simp add: w handle_exception_def)
  moreover have "(severity ?event, type_name ?event) = spec_classification e"
    by simp
  moreover have "location ?event = loc"
    by simp
  ultimately show ?thesis
    using w by blast
qed

theorem wrap_classification_witness:
  "\<exists>event. snd (wrap (\<lambda>u p. (Inl (Thrown_std Filesystem_error ''cannot open''), p))
                  here () two_probes) = publish event two_probes
     \<and> (severity event, type_name event) = (Error, ''filesystem_error'')
     \<and> location event = here"
  using wrap_classification
          [of "\<lambda>u p. (Inl (Thrown_std Filesystem_error ''cannot open''), p)" "()" two_probes
              "Thrown_std Filesystem_error ''cannot open''" two_probes here]
  by (simp add: spec_classification_def in_domain_def derives_from_def)

text \<open>
  C6. \<open>handle_expected\<close> leaves the process as it is on a success value. On a failure
  payload it makes one \<open>report\<close> with severity \<open>Warn\<close>, whose message is the payload
  when the payload type converts to text and \<open>Operation failed\<close> otherwise; that is
  one event published, which a single recording observer receives exactly once. The
  result is read only: the function returns the process state and nothing else.
\<close>

theorem handle_expected_reports_failure:
  "handle_expected to_text (Value val) loc p = p
   \<and> handle_expected to_text (Unexpected err) loc p =
       report (case to_text of Some conv \<Rightarrow> conv err | None \<Rightarrow> ''Operation failed'') Warn loc p
   \<and> handle_expected to_text (Unexpected err) loc p =
       publish \<lparr>message = (case to_text of Some conv \<Rightarrow> conv err | None \<Rightarrow> ''Operation failed''),
                severity = Warn, location = loc, timestamp = steady_now p,
                type_name = ''manual_report''\<rparr> p
   \<and> env (handle_expected to_text (Unexpected err) loc (q\<lparr>observers := [probe n]\<rparr>)) =
       env q @ [(n, \<lparr>message = (case to_text of Some conv \<Rightarrow> conv err | None \<Rightarrow> ''Operation failed''),
                     severity = Warn, location = loc, timestamp = steady_now q,
                     type_name = ''manual_report''\<rparr>)]"
  by (cases to_text)
     (simp_all add: handle_expected_def report_def handle_exception_def publish_def probe_def)

text \<open>
  C7. Observers are invoked in the order of their registration, each exactly once for
  one published event: after \<open>add_observer o1\<close> and then \<open>add_observer o2\<close>, publishing
  runs the observers registered before, then \<open>o1\<close>, then \<open>o2\<close>, on the same event; and
  two recording observers registered on a handler without observers record one call
  each, in that order, whether the event comes from \<open>report\<close>, from a failed
  \<open>handle_expected\<close> or from a callable that raises under \<open>wrap\<close>. The call is
  synchronous: the observers' effects are part of the state that the publishing call
  returns. Threads are not modelled.
\<close>

theorem observers_in_registration_order:
  "env (handle_exception msg sev type loc (add_observer o2 (add_observer o1 p))) =
     o2 \<lparr>message = msg, severity = sev, location = loc, timestamp = steady_now p, type_name = type\<rparr>
       (o1 \<lparr>message = msg, severity = sev, location = loc, timestamp = steady_now p, type_name = type\<rparr>
          (env (handle_exception msg sev type loc p)))
   \<and> env (report msg sev loc (add_observer (probe b) (add_observer (probe a) (q\<lparr>observers := []\<rparr>)))) =
       env q @ [(a, \<lparr>message = msg, severity = sev, location = loc, timestamp = steady_now q,
                     type_name = ''manual_report''\<rparr>),
                (b, \<lparr>message = msg, severity = sev, location = loc, timestamp = steady_now q,
                     type_name = ''manual_report''\<rparr>)]
   \<and> env (handle_expected None (Unexpected err) loc
            (add_observer (probe b) (add_observer (probe a) (q\<lparr>observers := []\<rparr>)))) =
       env q @ [(a, \<lparr>message = ''Operation failed'', severity = Warn, location = loc,
                     timestamp = steady_now q, type_name = ''manual_report''\<rparr>),
                (b, \<lparr>message = ''Operation failed'', severity = Warn, location = loc,
                     timestamp = steady_now q, type_name = ''manual_report''\<rparr>)]
   \<and> env (snd (wrap (\<lambda>x s. (Inl Thrown_other, s)) loc args
            (add_observer (probe b) (add_observer (probe a) (q\<lparr>observers := []\<rparr>))))) =
       env q @ [(a, \<lparr>message = ''Unknown exception'', severity = Critical, location = loc,
                     timestamp = steady_now q, type_name = ''unknown''\<rparr>),
                (b, \<lparr>message = ''Unknown exception'', severity = Critical, location = loc,
                     timestamp = steady_now q, type_name = ''unknown''\<rparr>)]"
proof -
  have "env (handle_exception msg sev type loc (add_observer o2 (add_observer o1 p))) =
     o2 \<lparr>message = msg, severity = sev, location = loc, timestamp = steady_now p, type_name = type\<rparr>
       (o1 \<lparr>message = msg, severity = sev, location = loc, timestamp = steady_now p, type_name = type\<rparr>
          (env (handle_exception msg sev type loc p)))"
    by (simp add: handle_exception_def publish_def add_observer_def)
  moreover have "env (report msg sev loc (add_observer (probe b) (add_observer (probe a) (q\<lparr>observers := []\<rparr>)))) =
       env q @ [(a, \<lparr>message = msg, severity = sev, location = loc, timestamp = steady_now q,
                     type_name = ''manual_report''\<rparr>),
                (b, \<lparr>message = msg, severity = sev, location = loc, timestamp = steady_now q,
                     type_name = ''manual_report''\<rparr>)]"
    by (simp add: report_def handle_exception_def publish_two_probes) (simp add: add_observer_def)
  moreover have "env (handle_expected None (Unexpected err) loc
            (add_observer (probe b) (add_observer (probe a) (q\<lparr>observers := []\<rparr>)))) =
       env q @ [(a, \<lparr>message = ''Operation failed'', severity = Warn, location = loc,
                     timestamp = steady_now q, type_name = ''manual_report''\<rparr>),
                (b, \<lparr>message = ''Operation failed'', severity = Warn, location = loc,
                     timestamp = steady_now q, type_name = ''manual_report''\<rparr>)]"
    by (simp add: handle_expected_def report_def handle_exception_def publish_two_probes)
       (simp add: add_observer_def)
  moreover have "env (snd (wrap (\<lambda>x s. (Inl Thrown_other, s)) loc args
            (add_observer (probe b) (add_observer (probe a) (q\<lparr>observers := []\<rparr>))))) =
       env q @ [(a, \<lparr>message = ''Unknown exception'', severity = Critical, location = loc,
                     timestamp = steady_now q, type_name = ''unknown''\<rparr>),
                (b, \<lparr>message = ''Unknown exception'', severity = Critical, location = loc,
                     timestamp = steady_now q, type_name = ''unknown''\<rparr>)]"
    by (simp add: wrap_def handle_exception_def publish_two_probes) (simp add: add_observer_def)
  ultimately show ?thesis
    by blast
qed

section \<open>Properties of the visualizer\<close>

subsection \<open>The toast queue\<close>

lemma limit_toasts_drop: "limit_toasts bound ts = drop (length ts - bound) ts"
proof (induction bound ts rule: limit_toasts.induct)
  case (1 bound ts)
  show ?case
  proof (cases "length ts > bound")
    case True
    then have "ts \<noteq> []"
      by auto
    with True 1 show ?thesis
      by (subst limit_toasts.simps) (cases ts, simp_all add: Suc_diff_le)
  next
    case False
    then show ?thesis
      by (subst limit_toasts.simps) simp
  qed
qed

lemma update_statistics_keeps [simp]:
  "toasts (update_statistics s v) = toasts v"
  "modal_error (update_statistics s v) = modal_error v"
  "max_toasts (update_statistics s v) = max_toasts v"
  "toast_lifetime (update_statistics s v) = toast_lifetime v"
  "popup_open (update_statistics s v) = popup_open v"
  by (cases s; simp)+

lemma make_toast_cong: "toast_lifetime v' = toast_lifetime v \<Longrightarrow> make_toast v' = make_toast v"
  by (rule ext) (simp add: make_toast_def)

lemma on_exception_config [simp]:
  "max_toasts (on_exception e v) = max_toasts v"
  "toast_lifetime (on_exception e v) = toast_lifetime v"
  by (simp_all add: on_exception_def Let_def)

lemma on_exception_toasts:
  "severity e \<noteq> Critical \<Longrightarrow>
   toasts (on_exception e v) =
     drop (Suc (length (toasts v)) - max_toasts v) (toasts v @ [make_toast v e])"
  by (simp add: on_exception_def Let_def limit_toasts_drop
        make_toast_cong [of "update_statistics (severity e) v" v])

lemma drop_drop_append:
  "b \<le> length xs \<Longrightarrow> drop a (drop b xs @ ys) = drop (a + b) (xs @ ys)"
  by (simp add: add.commute)

lemma deliver_toasts:
  assumes "\<forall>e\<in>set evs. severity e \<noteq> Critical"
    and "evs \<noteq> [] \<or> length (toasts v) \<le> max_toasts v"
  shows "toasts (deliver evs v) =
           drop (length (toasts v) + length evs - max_toasts v)
             (toasts v @ map (make_toast v) evs)"
  using assms
proof (induction evs arbitrary: v)
  case Nil
  then show ?case
    by simp
next
  case (Cons e es)
  let ?v1 = "on_exception e v"
  let ?k = "max_toasts v"
  let ?n = "length (toasts v)"
  from Cons.prems have nc: "severity e \<noteq> Critical"
    and ncs: "\<forall>e\<in>set es. severity e \<noteq> Critical"
    by simp_all
  have t1: "toasts ?v1 = drop (Suc ?n - ?k) (toasts v @ [make_toast v e])"
    by (rule on_exception_toasts [OF nc])
  have len1: "length (toasts ?v1) = min (Suc ?n) ?k"
    unfolding t1 by auto
  have mk: "make_toast ?v1 = make_toast v"
    by (rule make_toast_cong) simp
  have k1: "max_toasts ?v1 = ?k"
    by simp
  have "toasts (deliver es ?v1) =
          drop (length (toasts ?v1) + length es - max_toasts ?v1)
            (toasts ?v1 @ map (make_toast ?v1) es)"
    by (rule Cons.IH [OF ncs]) (simp add: len1)
  also have "\<dots> = drop (min (Suc ?n) ?k + length es - ?k)
                     (drop (Suc ?n - ?k) (toasts v @ [make_toast v e]) @ map (make_toast v) es)"
    by (simp only: len1 mk k1) (simp only: t1)
  also have "\<dots> = drop (min (Suc ?n) ?k + length es - ?k + (Suc ?n - ?k))
                     ((toasts v @ [make_toast v e]) @ map (make_toast v) es)"
    by (rule drop_drop_append) simp
  also have "min (Suc ?n) ?k + length es - ?k + (Suc ?n - ?k) = ?n + length (e # es) - ?k"
    by (cases "Suc ?n \<le> ?k") simp_all
  finally show ?case
    by simp
qed

text \<open>
  C3. After a run of \<open>N\<close> events, none of them critical, handed to \<open>on_exception\<close> with
  \<open>max_toasts = K\<close>, the queue holds at most \<open>K\<close> toasts, and they are the last \<open>K\<close>
  of the toasts enqueued so far (those already queued, then one per event), in the order
  of their enqueueing: only a front segment, the oldest toasts, has been evicted.
  Starting from an empty queue these are the toasts of the last \<open>min N K\<close> events. (For
  \<open>N = 0\<close> nothing runs, so the bound is the one the queue had.)
\<close>

theorem toast_queue_bound:
  assumes "\<forall>e\<in>set evs. severity e \<noteq> Critical"
    and "evs \<noteq> [] \<or> length (toasts v) \<le> max_toasts v"
  shows "length (toasts (deliver evs v)) \<le> max_toasts v
       \<and> toasts (deliver evs v) =
           drop (length (toasts v) + length evs - max_toasts v)
             (toasts v @ map (make_toast v) evs)
       \<and> (toasts v = [] \<longrightarrow>
            toasts (deliver evs v) = map (make_toast v) (drop (length evs - max_toasts v) evs)
          \<and> length (toasts (deliver evs v)) = min (length evs) (max_toasts v))"
proof -
  have eq: "toasts (deliver evs v) =
           drop (length (toasts v) + length evs - max_toasts v)
             (toasts v @ map (make_toast v) evs)"
    by (rule deliver_toasts [OF assms])
  have "length (toasts (deliver evs v)) \<le> max_toasts v"
    using assms(2) unfolding eq by (cases evs) auto
  moreover have "toasts v = [] \<longrightarrow>
            toasts (deliver evs v) = map (make_toast v) (drop (length evs - max_toasts v) evs)
          \<and> length (toasts (deliver evs v)) = min (length evs) (max_toasts v)"
    unfolding eq by (auto simp: drop_map)
  ultimately show ?thesis
    using eq by blast
qed

theorem toast_queue_bound_witness:
  "length (toasts (deliver [sample_event Warn ''A'', sample_event Warn ''B'', sample_event Warn ''C'']
                     (set_max_toasts 2 new_visualizer))) \<le> 2
   \<and> toasts (deliver [sample_event Warn ''A'', sample_event Warn ''B'', sample_event Warn ''C'']
                (set_max_toasts 2 new_visualizer)) =
       [make_toast new_visualizer (sample_event Warn ''B''),
        make_toast new_visualizer (sample_event Warn ''C'')]"
  using toast_queue_bound
          [of "[sample_event Warn ''A'', sample_event Warn ''B'', sample_event Warn ''C'']"
              "set_max_toasts 2 new_visualizer"]
  by (simp add: sample_event_def set_max_toasts_def new_visualizer_def make_toast_def)

subsection \<open>The modal slot and the counters\<close>

text \<open>
  C4. A critical event leaves the toast queue as it was and puts itself into the modal
  slot, whatever the slot held; after two critical events in a row the slot holds the
  second.
\<close>

theorem critical_replaces_modal:
  assumes "severity e1 = Critical" and "severity e2 = Critical"
  shows "toasts (on_exception e1 v) = toasts v
       \<and> modal_error (on_exception e1 v) = Some e1
       \<and> toasts (on_exception e2 (on_exception e1 v)) = toasts v
       \<and> modal_error (on_exception e2 (on_exception e1 v)) = Some e2"
  using assms by (simp add: on_exception_def Let_def)

theorem critical_replaces_modal_witness:
  "toasts (on_exception (sample_event Critical ''second'')
             (on_exception (sample_event Critical ''first'') new_visualizer)) = []
   \<and> modal_error (on_exception (sample_event Critical ''second'')
                    (on_exception (sample_event Critical ''first'') new_visualizer)) =
       Some (sample_event Critical ''second'')"
  using critical_replaces_modal
          [of "sample_event Critical ''first''" "sample_event Critical ''second''" new_visualizer]
  by (simp add: sample_event_def new_visualizer_def)

text \<open>
  C10. \<open>on_exception\<close> counts every event in exactly one counter, before it looks at
  the severity for the modal: the error counter for \<open>Error\<close> and \<open>Critical\<close>, the warning
  counter for \<open>Warn\<close>, the info counter for \<open>Info\<close>, \<open>Debug\<close> and \<open>Trace\<close>; a critical
  event goes to the modal slot and is counted by \<open>get_error_count\<close> all the same.
  Counters are 64-bit words, and the increment wraps.
\<close>

theorem statistics_counted_first:
  "error_count (on_exception e v) =
     error_count v + (if severity e = Error \<or> severity e = Critical then 1 else 0)
   \<and> warning_count (on_exception e v) =
     warning_count v + (if severity e = Warn then 1 else 0)
   \<and> info_count (on_exception e v) =
     info_count v + (if severity e = Info \<or> severity e = Debug \<or> severity e = Trace then 1 else 0)
   \<and> modal_error (on_exception (e\<lparr>severity := Critical\<rparr>) v) = Some (e\<lparr>severity := Critical\<rparr>)
   \<and> get_error_count (on_exception (e\<lparr>severity := Critical\<rparr>) v) = get_error_count v + 1"
  by (cases "severity e") (simp_all add: on_exception_def Let_def get_error_count_def)

subsection \<open>Expiry of toasts\<close>

text \<open>
  One frame keeps, in their order, the toasts whose decremented lifetime is positive;
  the statistics window may then empty the queue (``Clear All'').
\<close>

lemma toast_loop_eq:
  "map fst (toast_loop dt ts) =
     map (\<lambda>t. t\<lparr>lifetime := fsub (lifetime t) dt\<rparr>) (filter (\<lambda>t. 0 < fsub (lifetime t) dt) ts)"
  by (induction ts) (auto simp: Let_def)

lemma render_toasts_eq:
  "toasts (fst (render_toasts dt v)) =
     map (\<lambda>t. t\<lparr>lifetime := fsub (lifetime t) dt\<rparr>) (filter (\<lambda>t. 0 < fsub (lifetime t) dt) (toasts v))"
  by (simp add: render_toasts_def Let_def toast_loop_eq)

lemma render_modal_toasts: "toasts (fst (render_modal inp v)) = toasts v"
  by (simp add: render_modal_def dismiss_def Let_def)

lemma render_statistics_window_toasts:
  "toasts (fst (render_statistics_window inp v)) = [] \<or>
   toasts (fst (render_statistics_window inp v)) = toasts v"
  by (simp add: render_statistics_window_def clear_def Let_def)

lemma render_eq:
  "toasts (fst (render dt inp v)) = [] \<or>
   toasts (fst (render dt inp v)) =
     map (\<lambda>t. t\<lparr>lifetime := fsub (lifetime t) dt\<rparr>) (filter (\<lambda>t. 0 < fsub (lifetime t) dt) (toasts v))"
proof -
  obtain v1 drawn where r1: "render_toasts dt v = (v1, drawn)"
    by (cases "render_toasts dt v")
  obtain v2 rest where r2: "render_modal inp v1 = (v2, rest)"
    by (cases "render_modal inp v1")
  have t1: "toasts v1 = map (\<lambda>t. t\<lparr>lifetime := fsub (lifetime t) dt\<rparr>) (filter (\<lambda>t. 0 < fsub (lifetime t) dt) (toasts v))"
    using render_toasts_eq [of dt v] r1 by simp
  have t2: "toasts v2 = toasts v1"
    using render_modal_toasts [of inp v1] r2 by simp
  have "toasts (fst (render dt inp v)) = [] \<or> toasts (fst (render dt inp v)) = toasts v2"
    using render_statistics_window_toasts [of inp v2]
    by (cases rest) (auto simp: render_def r1 r2 split: prod.splits)
  then show ?thesis
    by (simp add: t2 t1)
qed

lemma render_frames_empty: "toasts v = [] \<Longrightarrow> toasts (render_frames frames v) = []"
proof (induction frames arbitrary: v)
  case Nil
  then show ?case by simp
next
  case (Cons fr frames)
  obtain dt inp where fr: "fr = (dt, inp)" by (cases fr)
  have "toasts (fst (render dt inp v)) = []"
    using render_eq [of dt inp v] Cons.prems by auto
  then show ?case
    by (simp add: fr Cons.IH)
qed

lemma countdown_Cons: "countdown L (dt # dts) = countdown (fsub L dt) dts"
  by (simp add: countdown_def)

lemma render_frames_eq:
  "toasts (render_frames frames v) = [] \<or>
   toasts (render_frames frames v) =
     map (\<lambda>t. t\<lparr>lifetime := countdown (lifetime t) (map fst frames)\<rparr>)
       (filter (\<lambda>t. alive (lifetime t) (map fst frames)) (toasts v))"
proof (induction frames arbitrary: v)
  case Nil
  then show ?case by (simp add: countdown_def)
next
  case (Cons fr frames)
  obtain dt inp where fr: "fr = (dt, inp)" by (cases fr)
  let ?v1 = "fst (render dt inp v)"
  let ?dts = "map fst frames"
  show ?case
  proof (cases "toasts ?v1 = []")
    case True
    then have "toasts (render_frames (fr # frames) v) = []"
      by (simp add: fr render_frames_empty)
    then show ?thesis by simp
  next
    case False
    with render_eq [of dt inp v]
    have t1: "toasts ?v1 = map (\<lambda>t. t\<lparr>lifetime := fsub (lifetime t) dt\<rparr>)
                (filter (\<lambda>t. 0 < fsub (lifetime t) dt) (toasts v))"
      by blast
    from Cons.IH [of ?v1] show ?thesis
    proof
      assume "toasts (render_frames frames ?v1) = []"
      then show ?thesis by (simp add: fr)
    next
      assume "toasts (render_frames frames ?v1) =
         map (\<lambda>t. t\<lparr>lifetime := countdown (lifetime t) ?dts\<rparr>)
           (filter (\<lambda>t. alive (lifetime t) ?dts) (toasts ?v1))"
      then have "toasts (render_frames (fr # frames) v) =
         map (\<lambda>t. t\<lparr>lifetime := countdown (lifetime t) (map fst (fr # frames))\<rparr>)
           (filter (\<lambda>t. alive (lifetime t) (map fst (fr # frames))) (toasts v))"
        by (simp add: fr t1 filter_map o_def countdown_Cons conj_commute)
      then show ?thesis by simp
    qed
  qed
qed

lemma alive_countdown:
  "alive L dts \<Longrightarrow> 0 < k \<Longrightarrow> k \<le> length dts \<Longrightarrow> 0 < countdown L (take k dts)"
proof (induction dts arbitrary: L k)
  case Nil
  then show ?case by simp
next
  case (Cons dt dts)
  then obtain j where k: "k = Suc j" by (cases k) auto
  show ?case
  proof (cases "j = 0")
    case True
    with Cons.prems k show ?thesis by (simp add: countdown_def)
  next
    case False
    with Cons.prems k Cons.IH [of "fsub L dt" j] show ?thesis
      by (simp add: countdown_Cons)
  qed
qed

text \<open>
  When no subtraction of the countdown rounds, the remaining lifetime is the lifetime
  less the sum of the \<open>dt\<close>.
\<close>

lemma countdown_exact:
  assumes "\<And>j. j < length dts \<Longrightarrow>
             f32 (L - sum_list (take (Suc j) dts)) = L - sum_list (take (Suc j) dts)"
  shows "countdown L dts = L - sum_list dts"
  using assms
proof (induction dts rule: rev_induct)
  case Nil
  then show ?case by (simp add: countdown_def)
next
  case (snoc d dts)
  have c: "countdown L dts = L - sum_list dts"
  proof (rule snoc.IH)
    fix j assume j: "j < length dts"
    with snoc.prems [of j] show "f32 (L - sum_list (take (Suc j) dts)) = L - sum_list (take (Suc j) dts)"
      by (simp add: Suc_le_eq)
  qed
  from snoc.prems [of "length dts"]
  have e: "f32 (L - sum_list (dts @ [d])) = L - sum_list (dts @ [d])"
    by simp
  have "countdown L (dts @ [d]) = f32 (countdown L dts - d)"
    by (simp add: countdown_def fsub_def)
  also have "countdown L dts - d = L - sum_list (dts @ [d])"
    by (simp add: c)
  finally show ?case
    by (simp only: e)
qed

lemma filter_removeAll: "\<not> P x \<Longrightarrow> filter P (removeAll x xs) = filter P xs"
  by (induction xs) auto

text \<open>
  C5, as the code has it. Take any toast \<open>t\<close> and any run of \<open>render\<close> calls, whatever
  the user does in them. If the remaining lifetime of \<open>t\<close>, counted down from its
  lifetime by the float subtraction of each \<open>dt\<close>, is \<open>\<le> 0\<close> after the \<open>k\<close>-th call,
  then after \<open>n\<close> calls, for every \<open>n \<ge> k\<close>, the queue is empty or is made of the
  survivors among the other toasts only: \<open>t\<close> has been removed at the \<open>k\<close>-th call at
  the latest and is not back after any later one.
\<close>

theorem toast_expires:
  assumes "0 < k" and "k \<le> n" and "k \<le> length frames"
    and "countdown (lifetime t) (map fst (take k frames)) \<le> 0"
  shows "toasts (render_frames (take n frames) v) = [] \<or>
         toasts (render_frames (take n frames) v) =
           map (\<lambda>u. u\<lparr>lifetime := countdown (lifetime u) (map fst (take n frames))\<rparr>)
             (filter (\<lambda>u. alive (lifetime u) (map fst (take n frames))) (removeAll t (toasts v)))"
proof -
  let ?dts = "map fst (take n frames)"
  have "\<not> alive (lifetime t) ?dts"
  proof
    assume a: "alive (lifetime t) ?dts"
    have "k \<le> length ?dts"
      using assms(2,3) by simp
    from alive_countdown [OF a assms(1) this]
    have "0 < countdown (lifetime t) (take k ?dts)" .
    moreover have "take k ?dts = map fst (take k frames)"
      using assms(2) by (simp add: take_map [symmetric] min_absorb1)
    ultimately show False
      using assms(4) by simp
  qed
  then have "filter (\<lambda>u. alive (lifetime u) ?dts) (removeAll t (toasts v)) =
             filter (\<lambda>u. alive (lifetime u) ?dts) (toasts v)"
    by (rule filter_removeAll)
  with render_frames_eq [of "take n frames" v] show ?thesis
    by simp
qed

theorem toast_expires_witness:
  "toasts (render_frames [(f32 (39 / 10), idle_frame), (f32 (1 / 5), idle_frame)]
             (on_exception (sample_event Warn ''A'') new_visualizer)) = []"
proof -
  let ?t = "make_toast new_visualizer (sample_event Warn ''A'')"
  let ?v = "on_exception (sample_event Warn ''A'') new_visualizer"
  let ?frames = "[(f32 (39 / 10), idle_frame), (f32 (1 / 5), idle_frame)]"
  have sev: "severity (sample_event Warn ''A'') \<noteq> Critical"
    by (simp add: sample_event_def)
  have queue: "toasts ?v = [?t]"
    by (simp add: on_exception_toasts [OF sev]) (simp add: new_visualizer_def)
  have "countdown 4 [f32 (39 / 10), f32 (1 / 5)] \<le> 0"
    by code_simp
  then have crossed: "countdown (lifetime ?t) (map fst (take 2 ?frames)) \<le> 0"
    by (simp add: make_toast_def new_visualizer_def)
  have "toasts (render_frames (take 2 ?frames) ?v) = [] \<or>
        toasts (render_frames (take 2 ?frames) ?v) =
           map (\<lambda>u. u\<lparr>lifetime := countdown (lifetime u) (map fst (take 2 ?frames))\<rparr>)
             (filter (\<lambda>u. alive (lifetime u) (map fst (take 2 ?frames))) (removeAll ?t (toasts ?v)))"
    by (rule toast_expires [OF _ _ _ crossed]) simp_all
  then show ?thesis
    by (simp add: queue)
qed

text \<open>
  C5, as the claim states it, fails: the exact sum of the \<open>dt\<close> can reach the initial
  lifetime one call before the float countdown reaches 0. With
  \<^verbatim>\<open>set_toast_lifetime(1.0f)\<close> and five calls \<^verbatim>\<open>render(0.2f)\<close>, the sum of the
  \<open>dt\<close> is below 1 after four calls and at least 1 after the fifth, and the toast is
  still in the queue after the fifth, with \<open>2 powi - 25\<close> seconds left: the countdown
  goes through \<^verbatim>\<open>0.8f\<close>, \<^verbatim>\<open>0.6f\<close>, a tie rounded up to 0.40000004 and
  0.20000003.
\<close>

theorem toast_outlives_cumulative_sum:
  "sum_list (replicate 4 (f32 (1 / 5))) < 1
   \<and> 1 \<le> sum_list (replicate 5 (f32 (1 / 5)))
   \<and> toasts (render_frames (replicate 5 (f32 (1 / 5), idle_frame))
               (on_exception (sample_event Warn ''A'') (set_toast_lifetime 1 new_visualizer))) =
       [(make_toast (set_toast_lifetime 1 new_visualizer) (sample_event Warn ''A''))
          \<lparr>lifetime := 1 / 33554432\<rparr>]"
  by code_simp

subsection \<open>The fade\<close>

lemma round_half_even_nonneg: "0 \<le> q \<Longrightarrow> 0 \<le> round_half_even q"
  by (auto simp: round_half_even_def Let_def)

lemma f32_nonneg: "0 \<le> x \<Longrightarrow> 0 \<le> f32 x"
  by (simp add: f32_def Let_def round_half_even_nonneg)

text \<open>
  C8, as the code has it. For a toast with remaining lifetime \<open>r\<close> and initial lifetime
  \<open>L\<close>: while \<open>r < 0.5\<close> the alpha is the float quotient \<open>r / 0.5\<close>, which falls
  linearly to 0 over the last 0.5 seconds; otherwise, while \<open>r\<close> is above the float
  difference \<open>L - 0.3\<close>, it is the float quotient \<open>(L - r) / 0.3\<close>, which rises linearly
  from 0 over the first 0.3 seconds; otherwise it is exactly 1. It is never negative for
  \<open>0 \<le> r \<le> L\<close>. The two windows are the constants \<^verbatim>\<open>0.5f\<close> and
  \<^verbatim>\<open>0.3f\<close>, durations in seconds that are the same for every initial lifetime.
\<close>

theorem fade_alpha_windows:
  "(lifetime t < f32 (1 / 2) \<longrightarrow> fade_alpha t = fdiv (lifetime t) (f32 (1 / 2)))
   \<and> (f32 (1 / 2) \<le> lifetime t \<and> fsub (initial_lifetime t) (f32 (3 / 10)) < lifetime t \<longrightarrow>
        fade_alpha t = fdiv (fsub (initial_lifetime t) (lifetime t)) (f32 (3 / 10)))
   \<and> (f32 (1 / 2) \<le> lifetime t \<and> lifetime t \<le> fsub (initial_lifetime t) (f32 (3 / 10)) \<longrightarrow>
        fade_alpha t = 1)
   \<and> (0 \<le> lifetime t \<and> lifetime t \<le> initial_lifetime t \<longrightarrow> 0 \<le> fade_alpha t)
   \<and> f32 (1 / 2) = 1 / 2 \<and> f32 (3 / 10) = 5033165 / 16777216"
proof -
  have c5: "f32 (1 / 2) = 1 / 2" and c3: "f32 (3 / 10) = 5033165 / 16777216"
    by code_simp+
  have "0 \<le> fade_alpha t" if "0 \<le> lifetime t" and "lifetime t \<le> initial_lifetime t"
    using that by (simp add: fade_alpha_def fdiv_def fsub_def c5 c3 f32_nonneg)
  moreover have "lifetime t < f32 (1 / 2) \<longrightarrow> fade_alpha t = fdiv (lifetime t) (f32 (1 / 2))"
    by (simp add: fade_alpha_def)
  moreover have "f32 (1 / 2) \<le> lifetime t \<and> fsub (initial_lifetime t) (f32 (3 / 10)) < lifetime t \<longrightarrow>
        fade_alpha t = fdiv (fsub (initial_lifetime t) (lifetime t)) (f32 (3 / 10))"
    by (simp add: fade_alpha_def)
  moreover have "f32 (1 / 2) \<le> lifetime t \<and> lifetime t \<le> fsub (initial_lifetime t) (f32 (3 / 10)) \<longrightarrow>
        fade_alpha t = 1"
    by (simp add: fade_alpha_def)
  ultimately show ?thesis
    using c5 c3 by blast
qed

theorem fade_alpha_windows_witness:
  "fade_alpha ((make_toast new_visualizer (sample_event Warn ''A''))\<lparr>lifetime := f32 (1 / 10)\<rparr>) = f32 (1 / 5)
   \<and> fade_alpha ((make_toast new_visualizer (sample_event Warn ''A''))\<lparr>lifetime := f32 (39 / 10)\<rparr>) =
       fdiv (fsub 4 (f32 (39 / 10))) (f32 (3 / 10))
   \<and> fade_alpha ((make_toast new_visualizer (sample_event Warn ''A''))\<lparr>lifetime := 2\<rparr>) = 1"
proof -
  let ?a = "(make_toast new_visualizer (sample_event Warn ''A''))\<lparr>lifetime := f32 (1 / 10)\<rparr>"
  let ?b = "(make_toast new_visualizer (sample_event Warn ''A''))\<lparr>lifetime := f32 (39 / 10)\<rparr>"
  let ?c = "(make_toast new_visualizer (sample_event Warn ''A''))\<lparr>lifetime := 2\<rparr>"
  have "lifetime ?a < f32 (1 / 2)"
    by code_simp
  with fade_alpha_windows [of ?a] have "fade_alpha ?a = fdiv (lifetime ?a) (f32 (1 / 2))"
    by blast
  also have "\<dots> = f32 (1 / 5)"
    by code_simp
  finally have a: "fade_alpha ?a = f32 (1 / 5)" .
  have "f32 (1 / 2) \<le> lifetime ?b \<and> fsub (initial_lifetime ?b) (f32 (3 / 10)) < lifetime ?b"
    by code_simp
  with fade_alpha_windows [of ?b]
  have "fade_alpha ?b = fdiv (fsub (initial_lifetime ?b) (lifetime ?b)) (f32 (3 / 10))"
    by blast
  also have "\<dots> = fdiv (fsub 4 (f32 (39 / 10))) (f32 (3 / 10))"
    by code_simp
  finally have b: "fade_alpha ?b = fdiv (fsub 4 (f32 (39 / 10))) (f32 (3 / 10))" .
  have "f32 (1 / 2) \<le> lifetime ?c \<and> lifetime ?c \<le> fsub (initial_lifetime ?c) (f32 (3 / 10))"
    by code_simp
  with fade_alpha_windows [of ?c] have c: "fade_alpha ?c = 1"
    by blast
  from a b c show ?thesis
    by blast
qed

text \<open>
  C8, as the claim states it, fails: no pair of fractions \<open>fin\<close>, \<open>fout\<close> of the initial
  lifetime gives the alpha of the code on all surviving toasts, not even within a
  tolerance of \<open>0.1\<close>. A toast with initial lifetime 4 and remaining lifetime
  \<^verbatim>\<open>3.8f\<close> and one with initial lifetime 8 and remaining lifetime \<^verbatim>\<open>7.6f\<close>
  have spent the same fraction of their lifetime and get the same alpha from any such
  pair; the code gives the first about \<open>2/3\<close> (it is 0.2 seconds old) and the second
  \<open>1\<close> (it is 0.4 seconds old).
\<close>

theorem fade_windows_not_fractions:
  "\<not> (\<exists>fin fout. \<forall>t. 0 < lifetime t \<and> lifetime t \<le> initial_lifetime t \<longrightarrow>
         \<bar>fade_alpha t - spec_fade_alpha fin fout t\<bar> \<le> 1 / 10)"
proof
  assume "\<exists>fin fout. \<forall>t. 0 < lifetime t \<and> lifetime t \<le> initial_lifetime t \<longrightarrow>
            \<bar>fade_alpha t - spec_fade_alpha fin fout t\<bar> \<le> 1 / 10"
  then obtain fin fout where spec:
    "\<And>t. 0 < lifetime t \<Longrightarrow> lifetime t \<le> initial_lifetime t \<Longrightarrow>
          \<bar>fade_alpha t - spec_fade_alpha fin fout t\<bar> \<le> 1 / 10"
    by blast
  define a where "a = (make_toast new_visualizer (sample_event Warn ''A''))
                        \<lparr>lifetime := f32 (19 / 5), initial_lifetime := 4\<rparr>"
  define b where "b = a\<lparr>lifetime := f32 (38 / 5), initial_lifetime := 8\<rparr>"
  have la: "lifetime a = 15938355 / 4194304" and ia: "initial_lifetime a = 4"
    and lb: "lifetime b = 15938355 / 2097152" and ib: "initial_lifetime b = 8"
    unfolding a_def b_def by code_simp+
  have alpha_a: "fade_alpha a = 11184813 / 16777216"
    unfolding a_def by code_simp
  have alpha_b: "fade_alpha b = 1"
    unfolding a_def b_def by code_simp
  have "\<bar>fade_alpha a - spec_fade_alpha fin fout a\<bar> \<le> 1 / 10"
    by (rule spec) (simp_all add: la ia)
  moreover have "\<bar>fade_alpha b - spec_fade_alpha fin fout b\<bar> \<le> 1 / 10"
    by (rule spec) (simp_all add: lb ib)
  moreover have "spec_fade_alpha fin fout a = spec_fade_alpha fin fout b"
    by (simp add: spec_fade_alpha_def Let_def la ia lb ib)
  ultimately have "\<bar>11184813 / 16777216 - spec_fade_alpha fin fout b\<bar> \<le> 1 / 10"
    and "\<bar>1 - spec_fade_alpha fin fout b\<bar> \<le> 1 / 10"
    by (simp_all only: alpha_a alpha_b)
  then show False
    by linarith
qed

subsection \<open>clear\<close>

lemma clear_empties: "toasts (clear v) = [] \<and> modal_error (clear v) = None"
  by (simp add: clear_def)

lemma render_after_clear:
  "drawn_toasts (snd (render dt inp (clear v))) = []
   \<and> modal_details (snd (render dt inp (clear v))) = None
   \<and> modal_drawn (snd (render dt inp (clear v))) = popup_open v"
  by (simp add: render_def render_toasts_def render_modal_def clear_def Let_def
        split: prod.splits)

text \<open>
  C9. \<open>clear\<close> empties the queue and the modal slot, and the next frame draws no toast
  and no details of an error. It does not close the popup that a critical event opened:
  after a critical event and \<open>clear\<close>, the next \<open>render\<close> still draws the modal window,
  without details.
\<close>

theorem clear_leaves_popup_open:
  "toasts (clear (on_exception (sample_event Critical ''boom'') new_visualizer)) = []
   \<and> modal_error (clear (on_exception (sample_event Critical ''boom'') new_visualizer)) = None
   \<and> drawn_toasts (snd (render (f32 (1 / 60)) idle_frame
        (clear (on_exception (sample_event Critical ''boom'') new_visualizer)))) = []
   \<and> modal_details (snd (render (f32 (1 / 60)) idle_frame
        (clear (on_exception (sample_event Critical ''boom'') new_visualizer)))) = None
   \<and> modal_drawn (snd (render (f32 (1 / 60)) idle_frame
        (clear (on_exception (sample_event Critical ''boom'') new_visualizer))))"
  by (simp add: clear_empties render_after_clear)
     (simp add: on_exception_def sample_event_def Let_def)

end
